theory Spec2Isabelle
  imports Complex_Main
begin

section \<open>The decision engine of dbus-autosleep\<close>

text \<open>
  A shallow embedding of \<^verbatim>\<open>update_ess_mode\<close> (src/dbus-autosleep.py, lines 129-362),
  the handler that the GLib main loop calls once per second, together with the module
  globals it mutates (lines 115-127) and the constants it reads (lines 41-65, 99-102).

  Python's unbounded integers are \<open>int\<close>. A value read from the bus is a \<open>bus_value\<close>;
  arithmetic on powers is done in \<open>real\<close> (the rounding of IEEE doubles is not modelled).
  The handler's effects (telemetry publications, log records, the controller write,
  sleeping) are recorded as a list of events.
\<close>

subsection \<open>Parameters (lines 41-65) and mode numbers (lines 99-102)\<close>

definition THRESHOLD_DEBOUNCE :: int where "THRESHOLD_DEBOUNCE = 10"
definition FEED_IN_TIMEOUT :: int where "FEED_IN_TIMEOUT = 3600"
definition FEED_IN_THRESHOLD :: int where "FEED_IN_THRESHOLD = 100"
definition FEED_IN_DISABLE_THRESHOLD :: int where "FEED_IN_DISABLE_THRESHOLD = 50"
definition CHARGE_TIMEOUT :: int where "CHARGE_TIMEOUT = 3600"
definition CHARGE_THRESHOLD :: int where "CHARGE_THRESHOLD = - 100"
definition CHARGE_DISABLE_THRESHOLD :: int where "CHARGE_DISABLE_THRESHOLD = - 50"
definition STABLE_TIMER :: int where "STABLE_TIMER = 60"
definition LOCK_TIME :: int where "LOCK_TIME = 600"

definition VE_MODE_CHARGER_ONLY :: int where "VE_MODE_CHARGER_ONLY = 1"
definition VE_MODE_INVERTER_ONLY :: int where "VE_MODE_INVERTER_ONLY = 2"
definition VE_MODE_ON :: int where "VE_MODE_ON = 3"
definition VE_MODE_OFF :: int where "VE_MODE_OFF = 4"

lemmas params =
  THRESHOLD_DEBOUNCE_def FEED_IN_TIMEOUT_def FEED_IN_THRESHOLD_def
  FEED_IN_DISABLE_THRESHOLD_def CHARGE_TIMEOUT_def CHARGE_THRESHOLD_def
  CHARGE_DISABLE_THRESHOLD_def STABLE_TIMER_def LOCK_TIME_def
  VE_MODE_CHARGER_ONLY_def VE_MODE_INVERTER_ONLY_def VE_MODE_ON_def VE_MODE_OFF_def

subsection \<open>Values on the bus\<close>

text \<open>
  What \<^verbatim>\<open>GetValue()\<close> can return: a \<^verbatim>\<open>dbus.Int32\<close>, a number of any other
  D-Bus type (a double, another integer width), or a value that is not a number (a
  string, or the empty array that stands for "invalid"). A plain Python \<^verbatim>\<open>int\<close>
  held in a variable whose type nobody inspects (the fallbacks \<open>0\<close> and \<open>-1\<close>, the
  committed mode) is written \<open>Int32\<close> as well.
\<close>

datatype bus_value = Int32 int | OtherNum real | NonNum

text \<open>\<^verbatim>\<open>v == n\<close> for an integer literal \<open>n\<close>.\<close>

fun bus_eq :: "bus_value \<Rightarrow> int \<Rightarrow> bool" where
  "bus_eq (Int32 i) n = (i = n)"
| "bus_eq (OtherNum r) n = (r = real_of_int n)"
| "bus_eq NonNum n = False"

text \<open>The number a value denotes in arithmetic; \<open>None\<close> is Python's TypeError.\<close>

fun num_of :: "bus_value \<Rightarrow> real option" where
  "num_of (Int32 i) = Some (real_of_int i)"
| "num_of (OtherNum r) = Some r"
| "num_of NonNum = None"

text \<open>\<^verbatim>\<open>isinstance(v, dbus.Int32)\<close>, giving the integer when it holds.\<close>

fun as_Int32 :: "bus_value \<Rightarrow> int option" where
  "as_Int32 (Int32 i) = Some i"
| "as_Int32 (OtherNum r) = None"
| "as_Int32 NonNum = None"

definition get_ve_mode_text :: "bus_value \<Rightarrow> string" where
  "get_ve_mode_text state =
     (if bus_eq state VE_MODE_CHARGER_ONLY then ''Charger only''
      else if bus_eq state VE_MODE_INVERTER_ONLY then ''Inverter only''
      else if bus_eq state VE_MODE_ON then ''On''
      else if bus_eq state VE_MODE_OFF then ''Off''
      else ''UNKNOWN'')"

subsection \<open>Module globals (lines 115-127)\<close>

record globals =
  grid_import_debounce :: int
  grid_import_timer :: int
  grid_export_debounce :: int
  grid_export_timer :: int
  feed_in_unstable :: bool
  feed_in_stable :: bool
  feed_in_stable_timer :: int
  charge_unstable :: bool
  charge_stable :: bool
  charge_stable_timer :: int
  mode_current :: bus_value
  mode_change_lock_timer :: int
  output_enabled :: bool

text \<open>
  The globals when the main loop starts: the initialisers of lines 115-127, with
  \<open>mode_current\<close> overwritten by the controller's mode read at line 426.
\<close>

definition init :: "bus_value \<Rightarrow> globals" where
  "init m =
     \<lparr> grid_import_debounce = THRESHOLD_DEBOUNCE,
       grid_import_timer = 0,
       grid_export_debounce = THRESHOLD_DEBOUNCE,
       grid_export_timer = 0,
       feed_in_unstable = False,
       feed_in_stable = False,
       feed_in_stable_timer = STABLE_TIMER,
       charge_unstable = False,
       charge_stable = False,
       charge_stable_timer = STABLE_TIMER,
       mode_current = m,
       mode_change_lock_timer = LOCK_TIME,
       output_enabled = True \<rparr>"

subsection \<open>The environment of one tick, and the effects of one tick\<close>

text \<open>
  \<open>bus e k\<close> is what \<^verbatim>\<open>busitem[k].GetValue()\<close> returns during the tick (\<open>None\<close>: the
  call raises); each item is read at most once per tick. \<open>sink_ok e p\<close> says whether
  the assignment \<^verbatim>\<open>dbusservice['debug'][p] = v\<close> succeeds, \<open>marker_file e\<close> is
  \<^verbatim>\<open>os.path.isfile('/data/dbus-autosleep/.output-enabled')\<close>, and \<open>set_ok e\<close> says
  whether \<^verbatim>\<open>busitem['Mode'].SetValue\<close> returns normally.
\<close>

record env =
  bus :: "string \<Rightarrow> bus_value option"
  sink_ok :: "string \<Rightarrow> bool"
  marker_file :: bool
  set_ok :: bool

datatype tval = TBool bool | TInt int | TNum real | TBus bus_value

datatype info =
    AutoEnabled string
  | AutoDisabled
  | ModeChange bool string string
  | PvEssLine
  | GridLoadLine
  | SocAllowLine
  | CounterLine

datatype event =
    Debug string tval
  | SetValue int
  | LogInfo info
  | LogError string
  | Sleep nat

text \<open>
  \<open>ModeChange en a b\<close> is line 340 (\<open>en\<close>: "Changing mode", otherwise "Suggesting mode
  change", from \<open>a\<close> to \<open>b\<close>); the four diagnostic lines 341-344 are recorded without
  their rendered numbers.
\<close>

subsection \<open>Computations that may raise\<close>

text \<open>
  A piece of the handler runs on the globals and the events so far; it returns a value,
  or raises (\<open>None\<close>) leaving the globals as they were at that moment.
\<close>

type_synonym ctx = "globals \<times> event list"
type_synonym 'a comp = "ctx \<Rightarrow> 'a option \<times> ctx"

definition ret :: "'a \<Rightarrow> 'a comp" where
  "ret x = (\<lambda>c. (Some x, c))"

definition raise :: "'a comp" where
  "raise = (\<lambda>c. (None, c))"

definition bind :: "'a comp \<Rightarrow> ('a \<Rightarrow> 'b comp) \<Rightarrow> 'b comp" where
  "bind m f = (\<lambda>c. case m c of (None, c') \<Rightarrow> (None, c') | (Some x, c') \<Rightarrow> f x c')"

definition try_except :: "'a comp \<Rightarrow> 'a comp \<Rightarrow> 'a comp" where
  "try_except m h = (\<lambda>c. case m c of (None, c') \<Rightarrow> h c' | (Some x, c') \<Rightarrow> (Some x, c'))"

definition gets :: "(globals \<Rightarrow> 'a) \<Rightarrow> 'a comp" where
  "gets f = (\<lambda>c. (Some (f (fst c)), c))"

definition modify :: "(globals \<Rightarrow> globals) \<Rightarrow> unit comp" where
  "modify f = (\<lambda>c. (Some (), (f (fst c), snd c)))"

definition emit :: "event \<Rightarrow> unit comp" where
  "emit ev = (\<lambda>c. (Some (), (fst c, snd c @ [ev])))"

definition lift_opt :: "'a option \<Rightarrow> 'a comp" where
  "lift_opt v = (case v of None \<Rightarrow> raise | Some x \<Rightarrow> ret x)"

definition GetValue :: "env \<Rightarrow> string \<Rightarrow> bus_value comp" where
  "GetValue e k = lift_opt (bus e k)"

definition publish :: "env \<Rightarrow> string \<Rightarrow> tval \<Rightarrow> unit comp" where
  "publish e p v = (if sink_ok e p then emit (Debug p v) else raise)"

definition publish_global :: "env \<Rightarrow> string \<Rightarrow> (globals \<Rightarrow> tval) \<Rightarrow> unit comp" where
  "publish_global e p f = bind (gets f) (publish e p)"

subsection \<open>Reading the sensors (lines 130-171)\<close>

definition read_allow_flags :: "env \<Rightarrow> (bool \<times> bool) comp" where
  "read_allow_flags e =
     try_except
       (bind (GetValue e ''DisableFeedIn'') (\<lambda>v1.
        bind (GetValue e ''DisableCharge'') (\<lambda>v2.
        bind (publish e ''/FeedInAllowed'' (TBool (bus_eq v1 0))) (\<lambda>_.
        bind (publish e ''/ChargeAllowed'' (TBool (bus_eq v2 0))) (\<lambda>_.
        ret (bus_eq v1 0, bus_eq v2 0))))))
       (ret (True, True))"

definition read_ess_power :: "env \<Rightarrow> int comp" where
  "read_ess_power e =
     try_except
       (bind (GetValue e ''EssPower'') (\<lambda>v.
        bind (publish e ''/EssPower'' (TBus v)) (\<lambda>_.
        ret (case as_Int32 v of None \<Rightarrow> 0 | Some i \<Rightarrow> i))))
       (ret 0)"

definition read_grid_power :: "env \<Rightarrow> bus_value comp" where
  "read_grid_power e =
     bind (GetValue e ''GridPower'') (\<lambda>v.
     bind (publish e ''/GridPower'' (TBus v)) (\<lambda>_.
     ret v))"

definition read_pv :: "env \<Rightarrow> (bus_value \<times> bus_value) comp" where
  "read_pv e =
     try_except
       (bind (GetValue e ''PvStatus'') (\<lambda>pv_inverter_mode.
        bind (GetValue e ''PvPower'') (\<lambda>pv_power.
        bind (publish e ''/PvPower'' (TBus pv_power)) (\<lambda>_.
        bind (publish e ''/PvInverterStatus'' (TBus pv_inverter_mode)) (\<lambda>_.
        ret (pv_inverter_mode, pv_power))))))
       (ret (Int32 0, Int32 (- 1)))"

subsection \<open>The two channels (lines 186-297)\<close>

text \<open>
  The source writes the debounce, the timeout and the stabilizer out twice, once per
  channel, with the same shape; each is one function here, applied to the channel's
  own globals.
\<close>

definition debounce :: "bool \<Rightarrow> int \<Rightarrow> int" where
  "debounce threshold_exceeded d =
     (if \<not> threshold_exceeded then THRESHOLD_DEBOUNCE
      else if d > 0 then d - 1
      else d)"

definition timeout :: "int \<Rightarrow> int \<Rightarrow> int \<Rightarrow> int" where
  "timeout limit d t =
     (if d = 0 then limit
      else if t > 0 then t - 1
      else t)"

text \<open>The stabilizer works on (candidate to be stabilized, settle timer, stable value).\<close>

type_synonym stab = "bool \<times> int \<times> bool"

fun stabilize :: "bool \<Rightarrow> stab \<Rightarrow> stab" where
  "stabilize new (unstable, timer, stable_value) =
     (if new \<noteq> unstable then (new, STABLE_TIMER, stable_value)
      else if timer > 0 then (unstable, timer - 1, stable_value)
      else (unstable, timer, unstable))"

definition feed_in_stab :: "globals \<Rightarrow> stab" where
  "feed_in_stab g = (feed_in_unstable g, feed_in_stable_timer g, feed_in_stable g)"

definition set_feed_in_stab :: "stab \<Rightarrow> globals \<Rightarrow> globals" where
  "set_feed_in_stab s g =
     g\<lparr>feed_in_unstable := fst s, feed_in_stable_timer := fst (snd s),
       feed_in_stable := snd (snd s)\<rparr>"

definition charge_stab :: "globals \<Rightarrow> stab" where
  "charge_stab g = (charge_unstable g, charge_stable_timer g, charge_stable g)"

definition set_charge_stab :: "stab \<Rightarrow> globals \<Rightarrow> globals" where
  "set_charge_stab s g =
     g\<lparr>charge_unstable := fst s, charge_stable_timer := fst (snd s),
       charge_stable := snd (snd s)\<rparr>"

text \<open>Lines 220-221: the feed-in request, from the globals as they are at that line.\<close>

definition feed_in_request :: "bool \<Rightarrow> real \<Rightarrow> globals \<Rightarrow> bool" where
  "feed_in_request feed_in_allowed residual_load g =
     (feed_in_allowed \<and>
      ((feed_in_stable g \<and> grid_import_timer g > 0) \<or>
       (\<not> feed_in_stable g \<and> residual_load > real_of_int FEED_IN_THRESHOLD)))"

text \<open>Lines 246, 279-280: the charge request.\<close>

definition pv_active :: "bus_value \<Rightarrow> bool" where
  "pv_active pv_inverter_mode = (bus_eq pv_inverter_mode 11 \<or> bus_eq pv_inverter_mode 12)"

definition charge_request :: "bool \<Rightarrow> real \<Rightarrow> bus_value \<Rightarrow> globals \<Rightarrow> bool" where
  "charge_request charge_allowed residual_load pv_inverter_mode g =
     ((charge_allowed \<and>
       ((charge_stable g \<and> grid_export_timer g > 0) \<or>
        (\<not> charge_stable g \<and> residual_load < real_of_int CHARGE_THRESHOLD))) \<and>
      pv_active pv_inverter_mode)"

definition feed_in_section :: "env \<Rightarrow> bool \<Rightarrow> real \<Rightarrow> unit comp" where
  "feed_in_section e feed_in_allowed residual_load =
     bind (modify (\<lambda>g. g\<lparr>grid_import_debounce :=
             debounce (residual_load > real_of_int FEED_IN_DISABLE_THRESHOLD)
               (grid_import_debounce g)\<rparr>)) (\<lambda>_.
     bind (publish_global e ''/FeedInDebounce'' (\<lambda>g. TInt (grid_import_debounce g))) (\<lambda>_.
     bind (modify (\<lambda>g. g\<lparr>grid_import_timer :=
             timeout FEED_IN_TIMEOUT (grid_import_debounce g) (grid_import_timer g)\<rparr>)) (\<lambda>_.
     bind (publish_global e ''/FeedInTimeout'' (\<lambda>g. TInt (grid_import_timer g))) (\<lambda>_.
     bind (gets (feed_in_request feed_in_allowed residual_load)) (\<lambda>feed_in_new.
     bind (publish e ''/FeedInRequest'' (TBool feed_in_new)) (\<lambda>_.
     bind (modify (\<lambda>g. set_feed_in_stab (stabilize feed_in_new (feed_in_stab g)) g)) (\<lambda>_.
     bind (publish_global e ''/FeedInRequestStableTimer''
             (\<lambda>g. TInt (feed_in_stable_timer g))) (\<lambda>_.
     publish_global e ''/FeedInRequestStable'' (\<lambda>g. TBool (feed_in_stable g))))))))))"

definition charge_section :: "env \<Rightarrow> bool \<Rightarrow> real \<Rightarrow> bus_value \<Rightarrow> unit comp" where
  "charge_section e charge_allowed residual_load pv_inverter_mode =
     bind (modify (\<lambda>g. g\<lparr>grid_export_debounce :=
             debounce (residual_load < real_of_int CHARGE_DISABLE_THRESHOLD)
               (grid_export_debounce g)\<rparr>)) (\<lambda>_.
     bind (publish_global e ''/ChargeDebounce'' (\<lambda>g. TInt (grid_export_debounce g))) (\<lambda>_.
     bind (modify (\<lambda>g. g\<lparr>grid_export_timer :=
             timeout CHARGE_TIMEOUT (grid_export_debounce g) (grid_export_timer g)\<rparr>)) (\<lambda>_.
     bind (publish_global e ''/ChargeTimeout'' (\<lambda>g. TInt (grid_export_timer g))) (\<lambda>_.
     bind (gets (charge_request charge_allowed residual_load pv_inverter_mode)) (\<lambda>charge_new.
     bind (publish e ''/ChargeRequest'' (TBool charge_new)) (\<lambda>_.
     bind (modify (\<lambda>g. set_charge_stab (stabilize charge_new (charge_stab g)) g)) (\<lambda>_.
     bind (publish_global e ''/ChargeRequestStableTimer''
             (\<lambda>g. TInt (charge_stable_timer g))) (\<lambda>_.
     publish_global e ''/ChargeRequestStable'' (\<lambda>g. TBool (charge_stable g))))))))))"

subsection \<open>Mode selection and the mode lock (lines 300-353)\<close>

definition select_mode :: "globals \<Rightarrow> int" where
  "select_mode g =
     (if feed_in_stable g then VE_MODE_ON
      else if charge_stable g then VE_MODE_ON
      else VE_MODE_OFF)"

text \<open>Lines 318-326: polling the enable switch.\<close>

definition poll_switch :: "env \<Rightarrow> unit comp" where
  "poll_switch e =
     bind (gets output_enabled) (\<lambda>output_enabled_old.
     bind (modify (\<lambda>g. g\<lparr>output_enabled := marker_file e\<rparr>)) (\<lambda>_.
     if marker_file e \<and> \<not> output_enabled_old then
       bind (GetValue e ''Mode'') (\<lambda>m.
       bind (modify (\<lambda>g. g\<lparr>mode_current := m\<rparr>)) (\<lambda>_.
       bind (emit (LogInfo (AutoEnabled (get_ve_mode_text m)))) (\<lambda>_.
       modify (\<lambda>g. g\<lparr>mode_change_lock_timer := 0\<rparr>))))
     else if \<not> marker_file e \<and> output_enabled_old then
       emit (LogInfo AutoDisabled)
     else ret ()))"

text \<open>
  Lines 336-351: the commit. \<^verbatim>\<open>{battery_soc:.0f}\<close> raises for a value that is not
  a number; the other formatted values are numbers by then.
\<close>

definition commit_mode :: "env \<Rightarrow> int \<Rightarrow> unit comp" where
  "commit_mode e mode_new =
     bind (GetValue e ''BatterySoc'') (\<lambda>battery_soc.
     bind (gets (\<lambda>g. (output_enabled g, mode_current g))) (\<lambda>(en, cur).
     bind (emit (LogInfo (ModeChange en (get_ve_mode_text cur)
             (get_ve_mode_text (Int32 mode_new))))) (\<lambda>_.
     bind (emit (LogInfo PvEssLine)) (\<lambda>_.
     bind (emit (LogInfo GridLoadLine)) (\<lambda>_.
     bind (lift_opt (num_of battery_soc)) (\<lambda>_.
     bind (emit (LogInfo SocAllowLine)) (\<lambda>_.
     bind (emit (LogInfo CounterLine)) (\<lambda>_.
     bind (modify (\<lambda>g. g\<lparr>mode_current := Int32 mode_new,
             mode_change_lock_timer := LOCK_TIME\<rparr>)) (\<lambda>_.
     bind (publish e ''/ModeOutput'' (TInt mode_new)) (\<lambda>_.
     if en then
       bind (emit (SetValue mode_new)) (\<lambda>_.
       if set_ok e then ret () else raise)
     else ret ()))))))))))"

text \<open>Lines 331-353: the lock.\<close>

definition mode_lock :: "env \<Rightarrow> int \<Rightarrow> unit comp" where
  "mode_lock e mode_new =
     bind (gets (\<lambda>g. (mode_change_lock_timer g, mode_current g))) (\<lambda>(lock, cur).
     bind (if lock > 0 then
             modify (\<lambda>g. g\<lparr>mode_change_lock_timer := mode_change_lock_timer g - 1\<rparr>)
           else if \<not> bus_eq cur mode_new then commit_mode e mode_new
           else ret ()) (\<lambda>_.
     publish_global e ''/ModeLockTime'' (\<lambda>g. TInt (mode_change_lock_timer g))))"

definition mode_section :: "env \<Rightarrow> unit comp" where
  "mode_section e =
     bind (gets select_mode) (\<lambda>mode_new.
     bind (publish e ''/Mode'' (TInt mode_new)) (\<lambda>_.
     bind (poll_switch e) (\<lambda>_.
     mode_lock e mode_new)))"

subsection \<open>The handler (lines 129-362)\<close>

text \<open>Lines 174-353, the body of the last \<^verbatim>\<open>try\<close>.\<close>

definition decide :: "env \<Rightarrow> bool \<Rightarrow> bool \<Rightarrow> int \<Rightarrow> bus_value \<Rightarrow> bus_value \<Rightarrow> bus_value
    \<Rightarrow> unit comp" where
  "decide e feed_in_allowed charge_allowed ess_power grid_power pv_inverter_mode pv_power =
     bind (lift_opt (num_of grid_power)) (\<lambda>gp.
     bind (ret (gp - real_of_int ess_power)) (\<lambda>residual_load.
     bind (publish e ''/ResidualLoad'' (TNum residual_load)) (\<lambda>_.
     bind (lift_opt (num_of pv_power)) (\<lambda>pp.
     bind (publish e ''/TotalLoad'' (TNum (residual_load + pp))) (\<lambda>_.
     bind (feed_in_section e feed_in_allowed residual_load) (\<lambda>_.
     bind (charge_section e charge_allowed residual_load pv_inverter_mode) (\<lambda>_.
     mode_section e)))))))"

datatype outcome = Continue | Exit

text \<open>
  \<open>Continue\<close>: the handler returns \<^verbatim>\<open>True\<close> and is called again a second later.
  \<open>Exit\<close>: it has called \<^verbatim>\<open>sys.exit()\<close>.
\<close>

definition grid_power_or_exit :: "env \<Rightarrow> bus_value option comp" where
  "grid_power_or_exit e =
     try_except
       (bind (read_grid_power e) (\<lambda>grid_power. ret (Some grid_power)))
       (bind (emit (LogError ''Could not get grid power, terminating in 30 seconds'')) (\<lambda>_.
        bind (emit (Sleep 30)) (\<lambda>_.
        ret None)))"

definition handler :: "env \<Rightarrow> outcome comp" where
  "handler e =
     bind (read_allow_flags e) (\<lambda>(feed_in_allowed, charge_allowed).
     bind (read_ess_power e) (\<lambda>ess_power.
     bind (grid_power_or_exit e) (\<lambda>r.
     case r of
       None \<Rightarrow> ret Exit
     | Some grid_power \<Rightarrow>
         bind (read_pv e) (\<lambda>(pv_inverter_mode, pv_power).
         try_except
           (bind (decide e feed_in_allowed charge_allowed ess_power grid_power
                    pv_inverter_mode pv_power) (\<lambda>_.
            ret Continue))
           (bind (emit (LogError ''Exception in update_ess_mode'')) (\<lambda>_.
            bind (emit (LogError ''traceback'')) (\<lambda>_.
            bind (emit (Sleep 10)) (\<lambda>_.
            ret Exit))))))))"

text \<open>
  One call of the handler from globals \<open>g\<close>: the outcome, the globals afterwards and the
  events of this tick. Every exception is caught inside the handler
  (\<open>handler_never_raises\<close> below), so the last case never applies.
\<close>

definition update_ess_mode :: "env \<Rightarrow> globals \<Rightarrow> outcome \<times> globals \<times> event list" where
  "update_ess_mode e g =
     (case handler e (g, []) of
        (Some oc, (g', evs)) \<Rightarrow> (oc, g', evs)
      | (None, (g', evs)) \<Rightarrow> (Exit, g', evs))"

subsection \<open>Executions\<close>

text \<open>
  The main loop calls the handler once per tick until it exits: \<open>run es g\<close> is the list
  of the ticks' results, one per environment of \<open>es\<close>, cut after a tick that exits.
\<close>

fun run :: "env list \<Rightarrow> globals \<Rightarrow> (outcome \<times> globals \<times> event list) list" where
  "run [] g = []"
| "run (e # es) g =
     (case update_ess_mode e g of
        (Continue, g', evs) \<Rightarrow> (Continue, g', evs) # run es g'
      | (Exit, g', evs) \<Rightarrow> [(Exit, g', evs)])"

text \<open>The controller writes among some events, and in a whole execution.\<close>

fun mode_writes :: "event list \<Rightarrow> int list" where
  "mode_writes [] = []"
| "mode_writes (SetValue v # evs) = v # mode_writes evs"
| "mode_writes (_ # evs) = mode_writes evs"

definition run_writes :: "env list \<Rightarrow> globals \<Rightarrow> int list" where
  "run_writes es g = concat (map (\<lambda>r. mode_writes (snd (snd r))) (run es g))"

section \<open>Vocabulary of the specification and of the proofs\<close>

definition pres :: "(ctx \<Rightarrow> bool) \<Rightarrow> 'a comp \<Rightarrow> bool" where
  "pres I m = (\<forall>c r c'. I c \<longrightarrow> m c = (r, c') \<longrightarrow> I c')"

text \<open>globals-only invariants\<close>

definition on_globals :: "(globals \<Rightarrow> bool) \<Rightarrow> ctx \<Rightarrow> bool" where
  "on_globals P c = P (fst c)"

definition counters_ok :: "globals \<Rightarrow> bool" where
  "counters_ok g =
     ((0 \<le> grid_import_debounce g \<and> grid_import_debounce g \<le> THRESHOLD_DEBOUNCE) \<and>
      (0 \<le> grid_import_timer g \<and> grid_import_timer g \<le> FEED_IN_TIMEOUT) \<and>
      (0 \<le> feed_in_stable_timer g \<and> feed_in_stable_timer g \<le> STABLE_TIMER) \<and>
      (0 \<le> grid_export_debounce g \<and> grid_export_debounce g \<le> THRESHOLD_DEBOUNCE) \<and>
      (0 \<le> grid_export_timer g \<and> grid_export_timer g \<le> CHARGE_TIMEOUT) \<and>
      (0 \<le> charge_stable_timer g \<and> charge_stable_timer g \<le> STABLE_TIMER))"

definition import_counters :: "real \<Rightarrow> globals \<Rightarrow> globals" where
  "import_counters rl g =
     g\<lparr>grid_import_debounce :=
          debounce (rl > real_of_int FEED_IN_DISABLE_THRESHOLD) (grid_import_debounce g),
       grid_import_timer :=
          timeout FEED_IN_TIMEOUT
            (debounce (rl > real_of_int FEED_IN_DISABLE_THRESHOLD) (grid_import_debounce g))
            (grid_import_timer g)\<rparr>"

definition feed_in_update :: "bool \<Rightarrow> real \<Rightarrow> globals \<Rightarrow> globals" where
  "feed_in_update fa rl g =
     set_feed_in_stab
       (stabilize (feed_in_request fa rl (import_counters rl g)) (feed_in_stab g))
       (import_counters rl g)"

definition feed_in_events :: "bool \<Rightarrow> real \<Rightarrow> globals \<Rightarrow> event list" where
  "feed_in_events fa rl g =
     [Debug ''/FeedInDebounce'' (TInt (grid_import_debounce (import_counters rl g))),
      Debug ''/FeedInTimeout'' (TInt (grid_import_timer (import_counters rl g))),
      Debug ''/FeedInRequest'' (TBool (feed_in_request fa rl (import_counters rl g))),
      Debug ''/FeedInRequestStableTimer'' (TInt (feed_in_stable_timer (feed_in_update fa rl g))),
      Debug ''/FeedInRequestStable'' (TBool (feed_in_stable (feed_in_update fa rl g)))]"

definition feed_in_sinks :: "env \<Rightarrow> bool" where
  "feed_in_sinks e =
     (sink_ok e ''/FeedInDebounce'' \<and> sink_ok e ''/FeedInTimeout'' \<and>
      sink_ok e ''/FeedInRequest'' \<and> sink_ok e ''/FeedInRequestStableTimer'' \<and>
      sink_ok e ''/FeedInRequestStable'')"

definition export_counters :: "real \<Rightarrow> globals \<Rightarrow> globals" where
  "export_counters rl g =
     g\<lparr>grid_export_debounce :=
          debounce (rl < real_of_int CHARGE_DISABLE_THRESHOLD) (grid_export_debounce g),
       grid_export_timer :=
          timeout CHARGE_TIMEOUT
            (debounce (rl < real_of_int CHARGE_DISABLE_THRESHOLD) (grid_export_debounce g))
            (grid_export_timer g)\<rparr>"

definition charge_update :: "bool \<Rightarrow> real \<Rightarrow> bus_value \<Rightarrow> globals \<Rightarrow> globals" where
  "charge_update ca rl st g =
     set_charge_stab
       (stabilize (charge_request ca rl st (export_counters rl g)) (charge_stab g))
       (export_counters rl g)"

definition charge_events :: "bool \<Rightarrow> real \<Rightarrow> bus_value \<Rightarrow> globals \<Rightarrow> event list" where
  "charge_events ca rl st g =
     [Debug ''/ChargeDebounce'' (TInt (grid_export_debounce (export_counters rl g))),
      Debug ''/ChargeTimeout'' (TInt (grid_export_timer (export_counters rl g))),
      Debug ''/ChargeRequest'' (TBool (charge_request ca rl st (export_counters rl g))),
      Debug ''/ChargeRequestStableTimer'' (TInt (charge_stable_timer (charge_update ca rl st g))),
      Debug ''/ChargeRequestStable'' (TBool (charge_stable (charge_update ca rl st g)))]"

definition charge_sinks :: "env \<Rightarrow> bool" where
  "charge_sinks e =
     (sink_ok e ''/ChargeDebounce'' \<and> sink_ok e ''/ChargeTimeout'' \<and>
      sink_ok e ''/ChargeRequest'' \<and> sink_ok e ''/ChargeRequestStableTimer'' \<and>
      sink_ok e ''/ChargeRequestStable'')"

definition poll_ok :: "env \<Rightarrow> globals \<Rightarrow> bool" where
  "poll_ok e g = (\<not> (marker_file e \<and> \<not> output_enabled g) \<or> bus e ''Mode'' \<noteq> None)"

definition poll_update :: "env \<Rightarrow> globals \<Rightarrow> globals" where
  "poll_update e g =
     (if marker_file e \<and> \<not> output_enabled g then
        (case bus e ''Mode'' of
           Some m \<Rightarrow> g\<lparr>output_enabled := True, mode_current := m, mode_change_lock_timer := 0\<rparr>
         | None \<Rightarrow> g\<lparr>output_enabled := True\<rparr>)
      else g\<lparr>output_enabled := marker_file e\<rparr>)"

definition poll_events :: "env \<Rightarrow> globals \<Rightarrow> event list" where
  "poll_events e g =
     (if marker_file e \<and> \<not> output_enabled g then
        (case bus e ''Mode'' of
           Some m \<Rightarrow> [LogInfo (AutoEnabled (get_ve_mode_text m))]
         | None \<Rightarrow> [])
      else if \<not> marker_file e \<and> output_enabled g then [LogInfo AutoDisabled]
      else [])"

definition commit_ok :: "env \<Rightarrow> globals \<Rightarrow> bool" where
  "commit_ok e g =
     ((case bus e ''BatterySoc'' of None \<Rightarrow> False | Some b \<Rightarrow> num_of b \<noteq> None) \<and>
      sink_ok e ''/ModeOutput'' \<and> (\<not> output_enabled g \<or> set_ok e))"

definition commit_update :: "int \<Rightarrow> globals \<Rightarrow> globals" where
  "commit_update mode_new g =
     g\<lparr>mode_current := Int32 mode_new, mode_change_lock_timer := LOCK_TIME\<rparr>"

definition commit_events :: "int \<Rightarrow> globals \<Rightarrow> event list" where
  "commit_events mode_new g =
     [LogInfo (ModeChange (output_enabled g) (get_ve_mode_text (mode_current g))
        (get_ve_mode_text (Int32 mode_new))),
      LogInfo PvEssLine, LogInfo GridLoadLine, LogInfo SocAllowLine, LogInfo CounterLine,
      Debug ''/ModeOutput'' (TInt mode_new)] @
     (if output_enabled g then [SetValue mode_new] else [])"

definition lock_ok :: "env \<Rightarrow> int \<Rightarrow> globals \<Rightarrow> bool" where
  "lock_ok e mode_new g =
     (mode_change_lock_timer g > 0 \<or> bus_eq (mode_current g) mode_new \<or> commit_ok e g)"

definition lock_update :: "int \<Rightarrow> globals \<Rightarrow> globals" where
  "lock_update mode_new g =
     (if mode_change_lock_timer g > 0
      then g\<lparr>mode_change_lock_timer := mode_change_lock_timer g - 1\<rparr>
      else if \<not> bus_eq (mode_current g) mode_new then commit_update mode_new g
      else g)"

definition lock_events :: "int \<Rightarrow> globals \<Rightarrow> event list" where
  "lock_events mode_new g =
     (if mode_change_lock_timer g > 0 then []
      else if \<not> bus_eq (mode_current g) mode_new then commit_events mode_new g
      else []) @
     [Debug ''/ModeLockTime'' (TInt (mode_change_lock_timer (lock_update mode_new g)))]"

definition mode_ok :: "env \<Rightarrow> globals \<Rightarrow> bool" where
  "mode_ok e g =
     (sink_ok e ''/Mode'' \<and> poll_ok e g \<and> lock_ok e (select_mode g) (poll_update e g) \<and>
      sink_ok e ''/ModeLockTime'')"

definition mode_update :: "env \<Rightarrow> globals \<Rightarrow> globals" where
  "mode_update e g = lock_update (select_mode g) (poll_update e g)"

definition mode_events :: "env \<Rightarrow> globals \<Rightarrow> event list" where
  "mode_events e g =
     Debug ''/Mode'' (TInt (select_mode g)) #
     poll_events e g @ lock_events (select_mode g) (poll_update e g)"

definition allow_read_ok :: "env \<Rightarrow> bool" where
  "allow_read_ok e =
     (bus e ''DisableFeedIn'' \<noteq> None \<and> bus e ''DisableCharge'' \<noteq> None \<and>
      sink_ok e ''/FeedInAllowed'' \<and> sink_ok e ''/ChargeAllowed'')"

definition allow_flags :: "env \<Rightarrow> bool \<times> bool" where
  "allow_flags e =
     (if allow_read_ok e
      then (bus_eq (the (bus e ''DisableFeedIn'')) 0, bus_eq (the (bus e ''DisableCharge'')) 0)
      else (True, True))"

definition allow_events :: "env \<Rightarrow> event list" where
  "allow_events e =
     (case bus e ''DisableFeedIn'' of
        None \<Rightarrow> []
      | Some v1 \<Rightarrow>
          (case bus e ''DisableCharge'' of
             None \<Rightarrow> []
           | Some v2 \<Rightarrow>
               (if sink_ok e ''/FeedInAllowed'' then
                  Debug ''/FeedInAllowed'' (TBool (bus_eq v1 0)) #
                  (if sink_ok e ''/ChargeAllowed''
                   then [Debug ''/ChargeAllowed'' (TBool (bus_eq v2 0))] else [])
                else [])))"

definition ess_power :: "env \<Rightarrow> int" where
  "ess_power e =
     (case bus e ''EssPower'' of
        None \<Rightarrow> 0
      | Some v \<Rightarrow>
          (if sink_ok e ''/EssPower'' then (case as_Int32 v of None \<Rightarrow> 0 | Some i \<Rightarrow> i)
           else 0))"

definition ess_events :: "env \<Rightarrow> event list" where
  "ess_events e =
     (case bus e ''EssPower'' of
        None \<Rightarrow> []
      | Some v \<Rightarrow> (if sink_ok e ''/EssPower'' then [Debug ''/EssPower'' (TBus v)] else []))"

definition grid_power :: "env \<Rightarrow> bus_value option" where
  "grid_power e =
     (case bus e ''GridPower'' of
        None \<Rightarrow> None
      | Some v \<Rightarrow> (if sink_ok e ''/GridPower'' then Some v else None))"

definition grid_events :: "env \<Rightarrow> event list" where
  "grid_events e =
     (case grid_power e of
        Some v \<Rightarrow> [Debug ''/GridPower'' (TBus v)]
      | None \<Rightarrow>
          [LogError ''Could not get grid power, terminating in 30 seconds'', Sleep 30])"

definition pv_read_ok :: "env \<Rightarrow> bool" where
  "pv_read_ok e =
     (bus e ''PvStatus'' \<noteq> None \<and> bus e ''PvPower'' \<noteq> None \<and>
      sink_ok e ''/PvPower'' \<and> sink_ok e ''/PvInverterStatus'')"

definition pv_values :: "env \<Rightarrow> bus_value \<times> bus_value" where
  "pv_values e =
     (if pv_read_ok e then (the (bus e ''PvStatus''), the (bus e ''PvPower''))
      else (Int32 0, Int32 (- 1)))"

definition pv_events :: "env \<Rightarrow> event list" where
  "pv_events e =
     (case bus e ''PvStatus'' of
        None \<Rightarrow> []
      | Some st \<Rightarrow>
          (case bus e ''PvPower'' of
             None \<Rightarrow> []
           | Some pw \<Rightarrow>
               (if sink_ok e ''/PvPower'' then
                  Debug ''/PvPower'' (TBus pw) #
                  (if sink_ok e ''/PvInverterStatus''
                   then [Debug ''/PvInverterStatus'' (TBus st)] else [])
                else [])))"

definition channels :: "env \<Rightarrow> real \<Rightarrow> globals \<Rightarrow> globals" where
  "channels e rl g =
     charge_update (snd (allow_flags e)) rl (fst (pv_values e))
       (feed_in_update (fst (allow_flags e)) rl g)"

definition decide_events :: "env \<Rightarrow> real \<Rightarrow> real \<Rightarrow> globals \<Rightarrow> event list" where
  "decide_events e rl pp g =
     [Debug ''/ResidualLoad'' (TNum rl), Debug ''/TotalLoad'' (TNum (rl + pp))] @
     feed_in_events (fst (allow_flags e)) rl g @
     charge_events (snd (allow_flags e)) rl (fst (pv_values e))
       (feed_in_update (fst (allow_flags e)) rl g) @
     mode_events e (channels e rl g)"

definition decide_sinks :: "env \<Rightarrow> bool" where
  "decide_sinks e =
     (sink_ok e ''/ResidualLoad'' \<and> sink_ok e ''/TotalLoad'' \<and> feed_in_sinks e \<and>
      charge_sinks e)"

definition residual_load :: "env \<Rightarrow> real option" where
  "residual_load e =
     (case grid_power e of
        None \<Rightarrow> None
      | Some v \<Rightarrow>
          (case num_of v of
             None \<Rightarrow> None
           | Some gp \<Rightarrow> Some (gp - real_of_int (ess_power e))))"

definition tick_ok :: "env \<Rightarrow> globals \<Rightarrow> bool" where
  "tick_ok e g =
     (case residual_load e of
        None \<Rightarrow> False
      | Some rl \<Rightarrow>
          (case num_of (snd (pv_values e)) of
             None \<Rightarrow> False
           | Some pp \<Rightarrow> decide_sinks e \<and> mode_ok e (channels e rl g)))"

definition tick_globals :: "env \<Rightarrow> globals \<Rightarrow> globals" where
  "tick_globals e g =
     (case residual_load e of
        None \<Rightarrow> g
      | Some rl \<Rightarrow> mode_update e (channels e rl g))"

definition read_events :: "env \<Rightarrow> event list" where
  "read_events e = allow_events e @ ess_events e @ grid_events e @ pv_events e"

definition tick_events :: "env \<Rightarrow> globals \<Rightarrow> event list" where
  "tick_events e g =
     read_events e @
     (case residual_load e of
        None \<Rightarrow> []
      | Some rl \<Rightarrow>
          (case num_of (snd (pv_values e)) of
             None \<Rightarrow> []
           | Some pp \<Rightarrow> decide_events e rl pp g))"

definition on_exception :: "outcome comp" where
  "on_exception =
     bind (emit (LogError ''Exception in update_ess_mode'')) (\<lambda>_.
     bind (emit (LogError ''traceback'')) (\<lambda>_.
     bind (emit (Sleep 10)) (\<lambda>_.
     ret Exit)))"

definition hoare :: "(ctx \<Rightarrow> bool) \<Rightarrow> 'a comp \<Rightarrow> ('a \<Rightarrow> ctx \<Rightarrow> bool) \<Rightarrow> (ctx \<Rightarrow> bool) \<Rightarrow> bool" where
  "hoare P m Q E =
     (\<forall>c. P c \<longrightarrow> (case m c of (Some x, c') \<Rightarrow> Q x c' | (None, c') \<Rightarrow> E c'))"

definition unwritten :: "int \<Rightarrow> bool \<Rightarrow> ctx \<Rightarrow> bool" where
  "unwritten l b c =
     (mode_change_lock_timer (fst c) = l \<and> output_enabled (fst c) = b \<and>
      mode_writes (snd c) = [])"

definition lock_post :: "env \<Rightarrow> int \<Rightarrow> bool \<Rightarrow> ctx \<Rightarrow> bool" where
  "lock_post e l b c =
     (length (mode_writes (snd c)) \<le> 1 \<and>
      (mode_writes (snd c) = [] \<or>
       (mode_change_lock_timer (fst c) = LOCK_TIME \<and> output_enabled (fst c) \<and>
        marker_file e \<and> (l \<le> 0 \<or> \<not> b))))"

definition counted :: "env \<Rightarrow> int \<Rightarrow> bool \<Rightarrow> ctx \<Rightarrow> bool" where
  "counted e l b c =
     (\<not> (b \<and> marker_file e \<and> l > 0) \<or>
      (mode_change_lock_timer (fst c) = l - 1 \<and> output_enabled (fst c)))"

definition window_writes :: "nat \<Rightarrow> nat \<Rightarrow> env list \<Rightarrow> globals \<Rightarrow> int list" where
  "window_writes i n es g =
     concat (map (\<lambda>r. mode_writes (snd (snd r))) (take n (drop i (run es g))))"

definition sample_env :: "real \<Rightarrow> bool \<Rightarrow> env" where
  "sample_env grid marker =
     \<lparr> bus = (\<lambda>k. if k = ''GridPower'' then Some (OtherNum grid)
                 else if k = ''BatterySoc'' then Some (OtherNum 80)
                 else if k = ''Mode'' then Some (Int32 3)
                 else Some (Int32 0)),
       sink_ok = (\<lambda>_. True), marker_file = marker, set_ok = True \<rparr>"

definition tick_writes :: "env \<Rightarrow> globals \<Rightarrow> int list" where
  "tick_writes e g =
     (case residual_load e of
        None \<Rightarrow> []
      | Some rl \<Rightarrow>
          (case num_of (snd (pv_values e)) of
             None \<Rightarrow> []
           | Some pp \<Rightarrow>
               (if \<not> mode_change_lock_timer (poll_update e (channels e rl g)) > 0 \<and>
                   \<not> bus_eq (mode_current (poll_update e (channels e rl g)))
                        (select_mode (channels e rl g)) \<and>
                   output_enabled (poll_update e (channels e rl g))
                then [select_mode (channels e rl g)] else [])))"

definition unlocked_on :: globals where
  "unlocked_on = (init (Int32 3))\<lparr>mode_change_lock_timer := 0\<rparr>"

definition settled :: globals where
  "settled =
     \<lparr> grid_import_debounce = 10, grid_import_timer = 0,
       grid_export_debounce = 10, grid_export_timer = 0,
       feed_in_unstable = False, feed_in_stable = False, feed_in_stable_timer = 0,
       charge_unstable = False, charge_stable = False, charge_stable_timer = 0,
       mode_current = Int32 4, mode_change_lock_timer = 0, output_enabled = True \<rparr>"

section \<open>Proofs\<close>

lemmas comp_defs = ret_def raise_def bind_def try_except_def gets_def modify_def emit_def
  lift_opt_def GetValue_def publish_def publish_global_def

lemma presD: "pres I m \<Longrightarrow> I c \<Longrightarrow> m c = (r, c') \<Longrightarrow> I c'"
  unfolding pres_def by blast

lemma pres_ret: "pres I (ret x)"
  by (simp add: pres_def ret_def)

lemma pres_raise: "pres I raise"
  by (simp add: pres_def raise_def)

lemma pres_gets: "pres I (gets f)"
  by (simp add: pres_def gets_def)

lemma pres_bind:
  assumes m: "pres I m" and f: "\<And>x. pres I (f x)"
  shows "pres I (bind m f)"
  unfolding pres_def
proof (intro allI impI)
  fix c r c'
  assume I: "I c" and run: "bind m f c = (r, c')"
  obtain r1 c1 where m1: "m c = (r1, c1)" by (cases "m c")
  have I1: "I c1" using presD[OF m I m1] .
  show "I c'"
  proof (cases r1)
    case None
    with run m1 have "c' = c1" by (simp add: bind_def)
    with I1 show ?thesis by simp
  next
    case (Some x)
    with run m1 have "f x c1 = (r, c')" by (simp add: bind_def)
    from presD[OF f I1 this] show ?thesis .
  qed
qed

lemma pres_try_except:
  assumes m: "pres I m" and h: "pres I h"
  shows "pres I (try_except m h)"
  unfolding pres_def
proof (intro allI impI)
  fix c r c'
  assume I: "I c" and run: "try_except m h c = (r, c')"
  obtain r1 c1 where m1: "m c = (r1, c1)" by (cases "m c")
  have I1: "I c1" using presD[OF m I m1] .
  show "I c'"
  proof (cases r1)
    case None
    with run m1 have "h c1 = (r, c')" by (simp add: try_except_def)
    from presD[OF h I1 this] show ?thesis .
  next
    case (Some x)
    with run m1 have "c' = c1" by (simp add: try_except_def)
    with I1 show ?thesis by simp
  qed
qed

lemma pres_modify: "(\<And>g tr. I (g, tr) \<Longrightarrow> I (f g, tr)) \<Longrightarrow> pres I (modify f)"
  by (auto simp: pres_def modify_def)

lemma pres_emit: "(\<And>g tr. I (g, tr) \<Longrightarrow> I (g, tr @ [ev])) \<Longrightarrow> pres I (emit ev)"
  by (auto simp: pres_def emit_def)

lemma pres_lift_opt: "pres I (lift_opt v)"
  by (cases v) (simp_all add: lift_opt_def pres_ret pres_raise)

lemma pres_GetValue: "pres I (GetValue e k)"
  by (simp add: GetValue_def pres_lift_opt)

lemma pres_publish: "(\<And>g tr. I (g, tr) \<Longrightarrow> I (g, tr @ [Debug p v])) \<Longrightarrow> pres I (publish e p v)"
  by (simp add: publish_def pres_emit pres_raise)

lemma pres_publish_global:
  "(\<And>g tr v. I (g, tr) \<Longrightarrow> I (g, tr @ [Debug p v])) \<Longrightarrow> pres I (publish_global e p f)"
  by (simp add: publish_global_def pres_bind pres_gets pres_publish)

lemma pres_if: "(b \<Longrightarrow> pres I m) \<Longrightarrow> (\<not> b \<Longrightarrow> pres I n) \<Longrightarrow> pres I (if b then m else n)"
  by simp

lemma pres_case_prod: "(\<And>a b. pres I (f a b)) \<Longrightarrow> pres I (case p of (a, b) \<Rightarrow> f a b)"
  by (cases p) simp

lemma pres_case_option:
  "pres I m \<Longrightarrow> (\<And>x. pres I (f x)) \<Longrightarrow> pres I (case v of None \<Rightarrow> m | Some x \<Rightarrow> f x)"
  by (cases v) simp_all

lemmas pres_intros = pres_ret pres_raise pres_gets pres_bind pres_try_except pres_lift_opt
  pres_GetValue pres_if pres_case_prod pres_case_option

lemma pres_emit_globals: "pres (on_globals P) (emit ev)"
  by (rule pres_emit) (simp add: on_globals_def)

lemma pres_publish_globals: "pres (on_globals P) (publish e p v)"
  by (rule pres_publish) (simp add: on_globals_def)

lemma pres_publish_global_globals: "pres (on_globals P) (publish_global e p f)"
  by (rule pres_publish_global) (simp add: on_globals_def)

lemma pres_modify_globals: "(\<And>g. P g \<Longrightarrow> P (f g)) \<Longrightarrow> pres (on_globals P) (modify f)"
  by (rule pres_modify) (simp add: on_globals_def)

lemmas pres_globals_intros = pres_intros pres_emit_globals pres_publish_globals
  pres_publish_global_globals

lemma read_allow_flags_pres_globals: "pres (on_globals P) (read_allow_flags e)"
  unfolding read_allow_flags_def by (intro pres_globals_intros)

lemma read_ess_power_pres_globals: "pres (on_globals P) (read_ess_power e)"
  unfolding read_ess_power_def by (intro pres_globals_intros)

lemma read_pv_pres_globals: "pres (on_globals P) (read_pv e)"
  unfolding read_pv_def by (intro pres_globals_intros)

lemma grid_power_or_exit_pres_globals: "pres (on_globals P) (grid_power_or_exit e)"
  unfolding grid_power_or_exit_def read_grid_power_def by (intro pres_globals_intros)

lemma stabilize_timer_bounds:
  "0 \<le> fst (snd s) \<Longrightarrow> fst (snd s) \<le> STABLE_TIMER \<Longrightarrow>
   0 \<le> fst (snd (stabilize new s)) \<and> fst (snd (stabilize new s)) \<le> STABLE_TIMER"
  by (cases s) (simp add: STABLE_TIMER_def)

lemma counters_ok_debounce_import:
  "counters_ok g \<Longrightarrow>
   counters_ok (g\<lparr>grid_import_debounce := debounce b (grid_import_debounce g)\<rparr>)"
  by (simp add: counters_ok_def debounce_def params)

lemma counters_ok_timeout_import:
  "counters_ok g \<Longrightarrow>
   counters_ok (g\<lparr>grid_import_timer :=
     timeout FEED_IN_TIMEOUT (grid_import_debounce g) (grid_import_timer g)\<rparr>)"
  by (simp add: counters_ok_def timeout_def params)

lemma counters_ok_stabilize_feed_in:
  "counters_ok g \<Longrightarrow> counters_ok (set_feed_in_stab (stabilize new (feed_in_stab g)) g)"
  using stabilize_timer_bounds[of "feed_in_stab g" new]
  by (simp add: counters_ok_def set_feed_in_stab_def feed_in_stab_def)

lemma counters_ok_debounce_export:
  "counters_ok g \<Longrightarrow>
   counters_ok (g\<lparr>grid_export_debounce := debounce b (grid_export_debounce g)\<rparr>)"
  by (simp add: counters_ok_def debounce_def params)

lemma counters_ok_timeout_export:
  "counters_ok g \<Longrightarrow>
   counters_ok (g\<lparr>grid_export_timer :=
     timeout CHARGE_TIMEOUT (grid_export_debounce g) (grid_export_timer g)\<rparr>)"
  by (simp add: counters_ok_def timeout_def params)

lemma counters_ok_stabilize_charge:
  "counters_ok g \<Longrightarrow> counters_ok (set_charge_stab (stabilize new (charge_stab g)) g)"
  using stabilize_timer_bounds[of "charge_stab g" new]
  by (simp add: counters_ok_def set_charge_stab_def charge_stab_def)

lemma counters_ok_mode_fields:
  "counters_ok (g\<lparr>output_enabled := b\<rparr>) = counters_ok g"
  "counters_ok (g\<lparr>mode_current := m\<rparr>) = counters_ok g"
  "counters_ok (g\<lparr>mode_change_lock_timer := l\<rparr>) = counters_ok g"
  by (simp_all add: counters_ok_def)

lemma feed_in_section_counters: "pres (on_globals counters_ok) (feed_in_section e fa rl)"
  unfolding feed_in_section_def
  by (intro pres_globals_intros pres_modify_globals counters_ok_debounce_import
      counters_ok_timeout_import counters_ok_stabilize_feed_in)

lemma charge_section_counters: "pres (on_globals counters_ok) (charge_section e ca rl st)"
  unfolding charge_section_def
  by (intro pres_globals_intros pres_modify_globals counters_ok_debounce_export
      counters_ok_timeout_export counters_ok_stabilize_charge)

lemma mode_section_counters: "pres (on_globals counters_ok) (mode_section e)"
  unfolding mode_section_def poll_switch_def mode_lock_def commit_mode_def
  by (intro pres_globals_intros pres_modify_globals) (simp_all add: counters_ok_mode_fields)

lemma decide_counters: "pres (on_globals counters_ok) (decide e fa ca ess gp st pw)"
  unfolding decide_def
  by (intro pres_globals_intros feed_in_section_counters charge_section_counters
      mode_section_counters)

lemma handler_counters: "pres (on_globals counters_ok) (handler e)"
  unfolding handler_def
  by (intro pres_globals_intros read_allow_flags_pres_globals read_ess_power_pres_globals
      read_pv_pres_globals grid_power_or_exit_pres_globals decide_counters)

lemma update_ess_mode_counters:
  assumes "counters_ok g"
  shows "counters_ok (fst (snd (update_ess_mode e g)))"
proof -
  obtain r g' evs where h: "handler e (g, []) = (r, (g', evs))"
    by (cases "handler e (g, [])") auto
  have "on_globals counters_ok (g, [])" using assms by (simp add: on_globals_def)
  from presD[OF handler_counters this h] have "counters_ok g'" by (simp add: on_globals_def)
  with h show ?thesis by (simp add: update_ess_mode_def split: option.splits)
qed

lemma run_counters:
  "counters_ok g \<Longrightarrow> r \<in> set (run es g) \<Longrightarrow> counters_ok (fst (snd r))"
proof (induction es arbitrary: g)
  case Nil
  then show ?case by simp
next
  case (Cons e es)
  obtain oc g' evs where t: "update_ess_mode e g = (oc, g', evs)"
    by (cases "update_ess_mode e g") auto
  have ok': "counters_ok g'" using update_ess_mode_counters[OF Cons.prems(1), of e] t by simp
  show ?case
  proof (cases oc)
    case Continue
    with t Cons.prems(2) have "r = (Continue, g', evs) \<or> r \<in> set (run es g')" by simp
    then show ?thesis using ok' Cons.IH[OF ok'] by auto
  next
    case Exit
    with t Cons.prems(2) have "r = (Exit, g', evs)" by simp
    then show ?thesis using ok' by simp
  qed
qed

lemma init_counters: "counters_ok (init m)"
  by (simp add: counters_ok_def init_def params)

lemma bind_Some:
  "bind m f c = (Some y, c') \<longleftrightarrow> (\<exists>x c1. m c = (Some x, c1) \<and> f x c1 = (Some y, c'))"
proof -
  obtain r c1 where "m c = (r, c1)" by (cases "m c")
  then show ?thesis by (cases r) (simp_all add: bind_def)
qed

lemma try_except_Some:
  "try_except m h c = (Some y, c') \<longleftrightarrow>
   (m c = (Some y, c') \<or> (\<exists>c1. m c = (None, c1) \<and> h c1 = (Some y, c')))"
proof -
  obtain r c1 where "m c = (r, c1)" by (cases "m c")
  then show ?thesis by (cases r) (auto simp add: try_except_def)
qed

lemma ret_Some: "ret x c = (Some y, c') \<longleftrightarrow> (y = x \<and> c' = c)"
  by (auto simp: ret_def)

lemma raise_Some: "raise c = (Some y, c') \<longleftrightarrow> False"
  by (simp add: raise_def)

lemma gets_Some: "gets f c = (Some y, c') \<longleftrightarrow> (y = f (fst c) \<and> c' = c)"
  by (auto simp: gets_def)

lemma modify_Some: "modify f c = (Some u, c') \<longleftrightarrow> c' = (f (fst c), snd c)"
  by (auto simp: modify_def)

lemma emit_Some: "emit ev c = (Some u, c') \<longleftrightarrow> c' = (fst c, snd c @ [ev])"
  by (auto simp: emit_def)

lemma lift_opt_Some: "lift_opt v c = (Some y, c') \<longleftrightarrow> (v = Some y \<and> c' = c)"
  by (cases v) (auto simp: lift_opt_def ret_def raise_def)

lemma GetValue_Some: "GetValue e k c = (Some y, c') \<longleftrightarrow> (bus e k = Some y \<and> c' = c)"
  by (simp add: GetValue_def lift_opt_Some)

lemma publish_Some:
  "publish e p v c = (Some u, c') \<longleftrightarrow> (sink_ok e p \<and> c' = (fst c, snd c @ [Debug p v]))"
  by (simp add: publish_def emit_Some raise_Some)

lemma publish_global_Some:
  "publish_global e p f c = (Some u, c') \<longleftrightarrow>
   (sink_ok e p \<and> c' = (fst c, snd c @ [Debug p (f (fst c))]))"
  by (simp add: publish_global_def bind_Some gets_Some publish_Some)

lemmas comp_Some = bind_Some ret_Some raise_Some gets_Some modify_Some emit_Some lift_opt_Some
  GetValue_Some publish_Some publish_global_Some

lemma feed_in_section_Some:
  "feed_in_section e fa rl c = (Some u, c') \<longleftrightarrow>
   (feed_in_sinks e \<and>
    c' = (feed_in_update fa rl (fst c), snd c @ feed_in_events fa rl (fst c)))"
  by (auto simp add: feed_in_section_def comp_Some feed_in_sinks_def feed_in_update_def
      feed_in_events_def import_counters_def feed_in_stab_def set_feed_in_stab_def
      feed_in_request_def)

lemma charge_section_Some:
  "charge_section e ca rl st c = (Some u, c') \<longleftrightarrow>
   (charge_sinks e \<and>
    c' = (charge_update ca rl st (fst c), snd c @ charge_events ca rl st (fst c)))"
  by (auto simp add: charge_section_def comp_Some charge_sinks_def charge_update_def
      charge_events_def export_counters_def charge_stab_def set_charge_stab_def
      charge_request_def)

lemma poll_switch_Some:
  "poll_switch e c = (Some u, c') \<longleftrightarrow>
   (poll_ok e (fst c) \<and> c' = (poll_update e (fst c), snd c @ poll_events e (fst c)))"
proof (cases "marker_file e \<and> \<not> output_enabled (fst c)")
  case True
  then show ?thesis
    by (cases "bus e ''Mode''")
      (auto simp add: poll_switch_def comp_Some poll_ok_def poll_update_def poll_events_def)
next
  case False
  then show ?thesis
    by (cases "\<not> marker_file e \<and> output_enabled (fst c)")
      (auto simp add: poll_switch_def comp_Some poll_ok_def poll_update_def poll_events_def)
qed

lemma commit_mode_Some:
  "commit_mode e mode_new c = (Some u, c') \<longleftrightarrow>
   (commit_ok e (fst c) \<and>
    c' = (commit_update mode_new (fst c), snd c @ commit_events mode_new (fst c)))"
  by (auto simp add: commit_mode_def comp_Some commit_ok_def commit_update_def
      commit_events_def split: option.splits)

lemma mode_lock_Some:
  "mode_lock e mode_new c = (Some u, c') \<longleftrightarrow>
   (lock_ok e mode_new (fst c) \<and> sink_ok e ''/ModeLockTime'' \<and>
    c' = (lock_update mode_new (fst c), snd c @ lock_events mode_new (fst c)))"
proof (cases "mode_change_lock_timer (fst c) > 0")
  case True
  then show ?thesis
    by (auto simp add: mode_lock_def comp_Some lock_ok_def lock_update_def lock_events_def)
next
  case False
  then show ?thesis
    by (cases "bus_eq (mode_current (fst c)) mode_new")
      (auto simp add: mode_lock_def comp_Some commit_mode_Some lock_ok_def lock_update_def
        lock_events_def)
qed

lemma mode_section_Some:
  "mode_section e c = (Some u, c') \<longleftrightarrow>
   (mode_ok e (fst c) \<and> c' = (mode_update e (fst c), snd c @ mode_events e (fst c)))"
  by (auto simp add: mode_section_def bind_Some gets_Some publish_Some poll_switch_Some
      mode_lock_Some mode_ok_def mode_update_def mode_events_def)

lemma bind_det: "m c = (Some x, c1) \<Longrightarrow> bind m f c = f x c1"
  by (simp add: bind_def)

lemma read_allow_flags_eq:
  "read_allow_flags e c = (Some (allow_flags e), (fst c, snd c @ allow_events e))"
  by (cases "bus e ''DisableFeedIn''"; cases "bus e ''DisableCharge''";
      cases "sink_ok e ''/FeedInAllowed''"; cases "sink_ok e ''/ChargeAllowed''")
    (simp_all add: read_allow_flags_def comp_defs allow_flags_def allow_events_def
      allow_read_ok_def)

lemma read_ess_power_eq:
  "read_ess_power e c = (Some (ess_power e), (fst c, snd c @ ess_events e))"
  by (cases "bus e ''EssPower''"; cases "sink_ok e ''/EssPower''")
    (simp_all add: read_ess_power_def comp_defs ess_power_def ess_events_def)

lemma grid_power_or_exit_eq:
  "grid_power_or_exit e c = (Some (grid_power e), (fst c, snd c @ grid_events e))"
  by (cases "bus e ''GridPower''"; cases "sink_ok e ''/GridPower''")
    (simp_all add: grid_power_or_exit_def read_grid_power_def comp_defs grid_power_def
      grid_events_def)

lemma read_pv_eq: "read_pv e c = (Some (pv_values e), (fst c, snd c @ pv_events e))"
  by (cases "bus e ''PvStatus''"; cases "bus e ''PvPower''";
      cases "sink_ok e ''/PvPower''"; cases "sink_ok e ''/PvInverterStatus''")
    (simp_all add: read_pv_def comp_defs pv_values_def pv_events_def pv_read_ok_def)

lemma bind_read_allow_flags:
  "bind (read_allow_flags e) f c = f (allow_flags e) (fst c, snd c @ allow_events e)"
  by (rule bind_det[OF read_allow_flags_eq])

lemma bind_read_ess_power:
  "bind (read_ess_power e) f c = f (ess_power e) (fst c, snd c @ ess_events e)"
  by (rule bind_det[OF read_ess_power_eq])

lemma bind_grid_power_or_exit:
  "bind (grid_power_or_exit e) f c = f (grid_power e) (fst c, snd c @ grid_events e)"
  by (rule bind_det[OF grid_power_or_exit_eq])

lemma bind_read_pv:
  "bind (read_pv e) f c = f (pv_values e) (fst c, snd c @ pv_events e)"
  by (rule bind_det[OF read_pv_eq])

lemma decide_Some:
  "decide e (fst (allow_flags e)) (snd (allow_flags e)) ess gpv (fst (pv_values e)) pw c
     = (Some u, c') \<longleftrightarrow>
   (\<exists>gp pp. num_of gpv = Some gp \<and> num_of pw = Some pp \<and> decide_sinks e \<and>
      mode_ok e (channels e (gp - real_of_int ess) (fst c)) \<and>
      c' = (mode_update e (channels e (gp - real_of_int ess) (fst c)),
            snd c @ decide_events e (gp - real_of_int ess) pp (fst c)))"
  by (auto simp add: decide_def bind_Some ret_Some lift_opt_Some publish_Some
      feed_in_section_Some charge_section_Some mode_section_Some decide_sinks_def
      channels_def decide_events_def)

lemma on_exception_eq:
  "on_exception c =
     (Some Exit, (fst c, snd c @ [LogError ''Exception in update_ess_mode'',
        LogError ''traceback'', Sleep 10]))"
  by (simp add: on_exception_def comp_defs)

lemma handler_eq:
  "handler e (g, []) =
     (case grid_power e of
        None \<Rightarrow> (Some Exit, (g, allow_events e @ ess_events e @ grid_events e))
      | Some gpv \<Rightarrow>
          try_except
            (bind (decide e (fst (allow_flags e)) (snd (allow_flags e)) (ess_power e) gpv
                     (fst (pv_values e)) (snd (pv_values e))) (\<lambda>_. ret Continue))
            on_exception (g, read_events e))"
  by (simp add: handler_def bind_read_allow_flags bind_read_ess_power
      bind_grid_power_or_exit bind_read_pv split_beta ret_def read_events_def
      on_exception_def split: option.splits)

lemma guarded_Continue:
  "try_except (bind m (\<lambda>_. ret Continue)) on_exception c = (r, c') \<Longrightarrow>
   r \<noteq> None \<and> (r = Some Continue \<longleftrightarrow> (\<exists>u. m c = (Some u, c')))"
proof -
  assume a: "try_except (bind m (\<lambda>_. ret Continue)) on_exception c = (r, c')"
  obtain r1 c1 where m: "m c = (r1, c1)" by (cases "m c")
  show ?thesis
  proof (cases r1)
    case None
    with a m show ?thesis
      by (auto simp add: try_except_def bind_def on_exception_eq)
  next
    case (Some u)
    with a m show ?thesis
      by (auto simp add: try_except_def bind_def ret_def)
  qed
qed

lemma handler_never_raises: "fst (handler e (g, [])) \<noteq> None"
proof (cases "grid_power e")
  case None
  then show ?thesis by (simp add: handler_eq)
next
  case (Some gpv)
  obtain r c' where
    "try_except
       (bind (decide e (fst (allow_flags e)) (snd (allow_flags e)) (ess_power e) gpv
                (fst (pv_values e)) (snd (pv_values e))) (\<lambda>_. ret Continue))
       on_exception (g, read_events e) = (r, c')"
    by (cases "try_except
       (bind (decide e (fst (allow_flags e)) (snd (allow_flags e)) (ess_power e) gpv
                (fst (pv_values e)) (snd (pv_values e))) (\<lambda>_. ret Continue))
       on_exception (g, read_events e)")
  with Some guarded_Continue[OF this] show ?thesis by (simp add: handler_eq)
qed

lemma tick_Continue:
  "update_ess_mode e g = (Continue, g', evs) \<longleftrightarrow>
   (tick_ok e g \<and> g' = tick_globals e g \<and> evs = tick_events e g)"
proof (cases "grid_power e")
  case None
  then show ?thesis
    by (simp add: update_ess_mode_def handler_eq tick_ok_def residual_load_def)
next
  case (Some gpv)
  let ?d = "decide e (fst (allow_flags e)) (snd (allow_flags e)) (ess_power e) gpv
              (fst (pv_values e)) (snd (pv_values e))"
  let ?t = "try_except (bind ?d (\<lambda>_. ret Continue)) on_exception (g, read_events e)"
  have u: "update_ess_mode e g =
      (case ?t of (Some oc, (g', evs)) \<Rightarrow> (oc, g', evs) | (None, (g', evs)) \<Rightarrow> (Exit, g', evs))"
    using Some by (simp add: update_ess_mode_def handler_eq)
  show ?thesis
  proof
    assume a: "update_ess_mode e g = (Continue, g', evs)"
    obtain r g1 evs1 where t: "?t = (r, (g1, evs1))" by (cases ?t) auto
    from guarded_Continue[OF t] obtain oc where r: "r = Some oc"
      and oc: "oc = Continue \<longleftrightarrow> (\<exists>u. ?d (g, read_events e) = (Some u, (g1, evs1)))"
      by auto
    from a u t r have "oc = Continue" "g1 = g'" "evs1 = evs" by simp_all
    with oc obtain u where "?d (g, read_events e) = (Some u, (g', evs))" by auto
    then show "tick_ok e g \<and> g' = tick_globals e g \<and> evs = tick_events e g"
      using Some
      by (auto simp add: decide_Some tick_ok_def tick_globals_def tick_events_def
          residual_load_def)
  next
    assume a: "tick_ok e g \<and> g' = tick_globals e g \<and> evs = tick_events e g"
    with Some obtain gp pp where n: "num_of gpv = Some gp" "num_of (snd (pv_values e)) = Some pp"
      and rl: "residual_load e = Some (gp - real_of_int (ess_power e))"
      by (auto simp add: tick_ok_def residual_load_def split: option.splits)
    have "?d (g, read_events e) = (Some (), (g', evs))"
      using a n rl
      by (simp add: decide_Some tick_ok_def tick_globals_def tick_events_def)
    then have "?t = (Some Continue, (g', evs))"
      by (simp add: try_except_def bind_def ret_def)
    with u show "update_ess_mode e g = (Continue, g', evs)" by simp
  qed
qed

lemma mode_writes_append: "mode_writes (xs @ ys) = mode_writes xs @ mode_writes ys"
  by (induction xs rule: mode_writes.induct) simp_all

lemma hoareD_Some: "hoare P m Q E \<Longrightarrow> P c \<Longrightarrow> m c = (Some x, c') \<Longrightarrow> Q x c'"
  unfolding hoare_def by fastforce

lemma hoareD_None: "hoare P m Q E \<Longrightarrow> P c \<Longrightarrow> m c = (None, c') \<Longrightarrow> E c'"
  unfolding hoare_def by fastforce

lemma wp_ret: "hoare (Q x) (ret x) Q E"
  by (simp add: hoare_def ret_def)

lemma wp_raise: "hoare E raise Q E"
  by (simp add: hoare_def raise_def)

lemma wp_gets: "hoare (\<lambda>(g, tr). Q (f g) (g, tr)) (gets f) Q E"
  by (simp add: hoare_def gets_def)

lemma wp_modify: "hoare (\<lambda>(g, tr). Q () (f g, tr)) (modify f) Q E"
  by (simp add: hoare_def modify_def)

lemma wp_emit: "hoare (\<lambda>(g, tr). Q () (g, tr @ [ev])) (emit ev) Q E"
  by (simp add: hoare_def emit_def)

lemma wp_lift_opt:
  "hoare (case v of None \<Rightarrow> E | Some x \<Rightarrow> Q x) (lift_opt v) Q E"
  by (cases v) (simp_all add: hoare_def lift_opt_def ret_def raise_def)

lemma wp_GetValue:
  "hoare (case bus e k of None \<Rightarrow> E | Some x \<Rightarrow> Q x) (GetValue e k) Q E"
  unfolding GetValue_def by (rule wp_lift_opt)

lemma wp_publish:
  "hoare (if sink_ok e p then (\<lambda>(g, tr). Q () (g, tr @ [Debug p v])) else E)
     (publish e p v) Q E"
  by (simp add: hoare_def publish_def emit_def raise_def)

lemma wp_publish_global:
  "hoare (if sink_ok e p then (\<lambda>(g, tr). Q () (g, tr @ [Debug p (f g)])) else E)
     (publish_global e p f) Q E"
  by (simp add: hoare_def publish_global_def publish_def bind_def gets_def emit_def raise_def)

lemma wp_bind:
  assumes f: "\<And>x. hoare (R x) (f x) Q E" and m: "hoare P m R E"
  shows "hoare P (bind m f) Q E"
  unfolding hoare_def
proof (intro allI impI)
  fix c assume P: "P c"
  obtain r c1 where mc: "m c = (r, c1)" by (cases "m c")
  show "case bind m f c of (Some x, c') \<Rightarrow> Q x c' | (None, c') \<Rightarrow> E c'"
  proof (cases r)
    case None
    with mc hoareD_None[OF m P] show ?thesis by (simp add: bind_def)
  next
    case (Some x)
    with mc have R: "R x c1" using hoareD_Some[OF m P] by simp
    obtain r2 c2 where fc: "f x c1 = (r2, c2)" by (cases "f x c1")
    show ?thesis
    proof (cases r2)
      case None
      with fc hoareD_None[OF f R] mc Some show ?thesis by (simp add: bind_def)
    next
      case (Some y)
      with fc hoareD_Some[OF f R] mc \<open>r = Some x\<close> show ?thesis by (simp add: bind_def)
    qed
  qed
qed

lemma wp_try_except:
  assumes h: "hoare R h Q E" and m: "hoare P m Q R"
  shows "hoare P (try_except m h) Q E"
  unfolding hoare_def
proof (intro allI impI)
  fix c assume P: "P c"
  obtain r c1 where mc: "m c = (r, c1)" by (cases "m c")
  show "case try_except m h c of (Some x, c') \<Rightarrow> Q x c' | (None, c') \<Rightarrow> E c'"
  proof (cases r)
    case None
    with mc have R: "R c1" using hoareD_None[OF m P] by simp
    obtain r2 c2 where hc: "h c1 = (r2, c2)" by (cases "h c1")
    show ?thesis
    proof (cases r2)
      case None
      with hc hoareD_None[OF h R] mc \<open>r = None\<close> show ?thesis by (simp add: try_except_def)
    next
      case (Some y)
      with hc hoareD_Some[OF h R] mc \<open>r = None\<close> show ?thesis by (simp add: try_except_def)
    qed
  next
    case (Some x)
    with mc hoareD_Some[OF m P] show ?thesis by (simp add: try_except_def)
  qed
qed

lemma wp_if:
  "hoare P1 m Q E \<Longrightarrow> hoare P2 n Q E \<Longrightarrow>
   hoare (if b then P1 else P2) (if b then m else n) Q E"
  by simp

lemma wp_case_prod:
  "(\<And>a b. hoare (P a b) (f a b) Q E) \<Longrightarrow>
   hoare (case p of (a, b) \<Rightarrow> P a b) (case p of (a, b) \<Rightarrow> f a b) Q E"
  by (cases p) simp

lemma wp_case_option:
  "hoare P1 m Q E \<Longrightarrow> (\<And>x. hoare (P2 x) (f x) Q E) \<Longrightarrow>
   hoare (case v of None \<Rightarrow> P1 | Some x \<Rightarrow> P2 x) (case v of None \<Rightarrow> m | Some x \<Rightarrow> f x) Q E"
  by (cases v) simp_all

lemma hoareD:
  assumes "hoare P m Q E" and "P c"
  shows "case m c of (Some x, c') \<Rightarrow> Q x c' | (None, c') \<Rightarrow> E c'"
  using assms(1)[unfolded hoare_def, rule_format, OF assms(2)] .

lemma wp_pre:
  assumes "hoare P' m Q E" and "\<And>c. P c \<Longrightarrow> P' c"
  shows "hoare P m Q E"
  unfolding hoare_def
proof (intro allI impI)
  fix c assume "P c"
  then have "P' c" by (rule assms(2))
  from hoareD[OF assms(1) this]
  show "case m c of (Some x, c') \<Rightarrow> Q x c' | (None, c') \<Rightarrow> E c'" .
qed

lemma wp_call:
  assumes "hoare P0 m Q0 E0"
  shows "hoare (\<lambda>c. P0 c \<and> (\<forall>x c'. Q0 x c' \<longrightarrow> Q x c') \<and> (\<forall>c'. E0 c' \<longrightarrow> E c')) m Q E"
  unfolding hoare_def
proof (intro allI impI)
  fix c assume P: "P0 c \<and> (\<forall>x c'. Q0 x c' \<longrightarrow> Q x c') \<and> (\<forall>c'. E0 c' \<longrightarrow> E c')"
  obtain r c1 where mc: "m c = (r, c1)" by (cases "m c")
  show "case m c of (Some x, c') \<Rightarrow> Q x c' | (None, c') \<Rightarrow> E c'"
  proof (cases r)
    case None
    with mc hoareD_None[OF assms, of c c1] P show ?thesis by (cases c1) auto
  next
    case (Some x)
    with mc hoareD_Some[OF assms, of c x c1] P show ?thesis by (cases c1) auto
  qed
qed

lemma pres_hoare:
  assumes "pres I m"
  shows "hoare I m (\<lambda>_. I) I"
  unfolding hoare_def
proof (intro allI impI)
  fix c assume I: "I c"
  obtain r c1 where mc: "m c = (r, c1)" by (cases "m c")
  from presD[OF assms I mc] have "I c1" .
  with mc show "case m c of (Some x, c') \<Rightarrow> I c' | (None, c') \<Rightarrow> I c'"
    by (cases r) simp_all
qed

lemmas wp_frame = wp_call[OF pres_hoare]

lemmas wp_rules = wp_ret wp_raise wp_gets wp_modify wp_emit wp_lift_opt wp_GetValue wp_publish
  wp_publish_global wp_bind wp_try_except wp_if wp_case_prod wp_case_option

lemma mode_section_lock:
  "hoare (unwritten l b) (mode_section e)
     (\<lambda>_ c. lock_post e l b c \<and> counted e l b c) (lock_post e l b)"
  unfolding mode_section_def poll_switch_def mode_lock_def commit_mode_def
  apply (rule wp_pre)
   apply (rule wp_rules)+
  subgoal for c
    by (cases c)
      (auto simp add: unwritten_def lock_post_def counted_def mode_writes_append
        split: option.splits)
  done

lemma unwritten_debug: "unwritten l b (g, tr) \<Longrightarrow> unwritten l b (g, tr @ [Debug p v])"
  by (simp add: unwritten_def mode_writes_append)

lemma read_allow_flags_unwritten: "pres (unwritten l b) (read_allow_flags e)"
  unfolding read_allow_flags_def
  by (intro pres_intros pres_publish unwritten_debug)

lemma read_ess_power_unwritten: "pres (unwritten l b) (read_ess_power e)"
  unfolding read_ess_power_def
  by (intro pres_intros pres_publish unwritten_debug)

lemma read_pv_unwritten: "pres (unwritten l b) (read_pv e)"
  unfolding read_pv_def
  by (intro pres_intros pres_publish unwritten_debug)

lemma grid_power_or_exit_unwritten: "pres (unwritten l b) (grid_power_or_exit e)"
  unfolding grid_power_or_exit_def read_grid_power_def
  by (intro pres_intros pres_publish pres_emit unwritten_debug)
    (simp_all add: unwritten_def mode_writes_append)

lemma feed_in_section_unwritten: "pres (unwritten l b) (feed_in_section e fa rl)"
  unfolding feed_in_section_def
  by (intro pres_intros pres_publish pres_publish_global pres_modify unwritten_debug)
    (simp_all add: unwritten_def set_feed_in_stab_def)

lemma charge_section_unwritten: "pres (unwritten l b) (charge_section e ca rl st)"
  unfolding charge_section_def
  by (intro pres_intros pres_publish pres_publish_global pres_modify unwritten_debug)
    (simp_all add: unwritten_def set_charge_stab_def)

lemma unwritten_lock_post: "unwritten l b c \<Longrightarrow> lock_post e l b c"
  by (simp add: unwritten_def lock_post_def)

lemma decide_lock:
  "hoare (unwritten l b) (decide e fa ca ess gpv st pw)
     (\<lambda>_ c. lock_post e l b c \<and> counted e l b c) (lock_post e l b)"
  unfolding decide_def
  apply (rule wp_pre)
   apply (rule wp_rules wp_call[OF mode_section_lock[where l=l and b=b]]
      wp_frame[OF feed_in_section_unwritten[where l=l and b=b]]
      wp_frame[OF charge_section_unwritten[where l=l and b=b]])+
  subgoal for c
    by (cases c)
      (auto simp add: unwritten_lock_post unwritten_def mode_writes_append
        split: option.splits)
  done

lemma on_exception_lock:
  "hoare (lock_post e l b)
     (bind (emit (LogError s1)) (\<lambda>_. bind (emit (LogError s2)) (\<lambda>_.
        bind (emit (Sleep n)) (\<lambda>_. ret Exit))))
     (\<lambda>oc c. lock_post e l b c \<and> (oc = Continue \<longrightarrow> counted e l b c))
     (lock_post e l b)"
  apply (rule wp_pre)
   apply (rule wp_rules)+
  subgoal for c by (cases c) (simp add: lock_post_def mode_writes_append)
  done

lemma handler_lock:
  "hoare (unwritten l b) (handler e)
     (\<lambda>oc c. lock_post e l b c \<and> (oc = Continue \<longrightarrow> counted e l b c))
     (lock_post e l b)"
  unfolding handler_def
  apply (rule wp_pre)
   apply (rule wp_rules wp_call[OF decide_lock[where l=l and b=b]]
      wp_call[OF on_exception_lock[where l=l and b=b]]
      wp_frame[OF read_allow_flags_unwritten[where l=l and b=b]]
      wp_frame[OF read_ess_power_unwritten[where l=l and b=b]]
      wp_frame[OF read_pv_unwritten[where l=l and b=b]]
      wp_frame[OF grid_power_or_exit_unwritten[where l=l and b=b]])+
  subgoal for c
    by (cases c)
      (auto simp add: unwritten_def lock_post_def mode_writes_append
        split: option.splits)
  done

lemma tick_lock:
  assumes "update_ess_mode e g = (oc, g', evs)"
  shows "lock_post e (mode_change_lock_timer g) (output_enabled g) (g', evs)"
    and "oc = Continue \<Longrightarrow> counted e (mode_change_lock_timer g) (output_enabled g) (g', evs)"
proof -
  let ?l = "mode_change_lock_timer g" and ?b = "output_enabled g"
  have P: "unwritten ?l ?b (g, [])" by (simp add: unwritten_def)
  obtain r c1 where h: "handler e (g, []) = (r, c1)" by (cases "handler e (g, [])")
  from assms h have c1: "c1 = (g', evs)"
    by (cases c1; cases r) (simp_all add: update_ess_mode_def)
  from assms h have oc: "oc = Continue \<Longrightarrow> r = Some Continue"
    by (cases c1; cases r) (simp_all add: update_ess_mode_def)
  note H = hoareD[OF handler_lock[where e=e and l="?l" and b="?b"] P]
  from H h c1 show "lock_post e ?l ?b (g', evs)"
    by (cases r) simp_all
  from H h c1 oc show "oc = Continue \<Longrightarrow> counted e ?l ?b (g', evs)"
    by simp
qed

lemma run_Cons:
  "update_ess_mode e g = (oc, g', evs) \<Longrightarrow>
   run (e # es) g = (oc, g', evs) # (if oc = Continue then run es g' else [])"
  by (cases oc) simp_all

lemma run_writes_Nil: "run_writes [] g = []"
  by (simp add: run_writes_def)

lemma run_writes_Cons:
  "update_ess_mode e g = (oc, g', evs) \<Longrightarrow>
   run_writes (e # es) g = mode_writes evs @ (if oc = Continue then run_writes es g' else [])"
  by (cases oc) (simp_all add: run_writes_def)

lemma run_take: "take n (run es g) = run (take n es) g"
proof (induction es arbitrary: n g)
  case Nil
  then show ?case by simp
next
  case (Cons e es)
  obtain oc g' evs where t: "update_ess_mode e g = (oc, g', evs)"
    by (cases "update_ess_mode e g") auto
  show ?case
  proof (cases n)
    case 0
    then show ?thesis by simp
  next
    case (Suc k)
    with t Cons.IH[of k g'] show ?thesis by (cases oc) simp_all
  qed
qed

lemma run_drop: "drop i (run es g) = [] \<or> (\<exists>g'. drop i (run es g) = run (drop i es) g')"
proof (induction es arbitrary: i g)
  case Nil
  then show ?case by simp
next
  case (Cons e es)
  obtain oc g' evs where t: "update_ess_mode e g = (oc, g', evs)"
    by (cases "update_ess_mode e g") auto
  show ?case
  proof (cases i)
    case 0
    then show ?thesis by auto
  next
    case (Suc k)
    with t Cons.IH[of k g'] show ?thesis by (cases oc) simp_all
  qed
qed

lemma locked_tick_no_write:
  assumes t: "update_ess_mode e g = (oc, g', evs)"
    and en: "output_enabled g" and l: "0 < mode_change_lock_timer g"
  shows "mode_writes evs = []"
  using tick_lock(1)[OF t] en l by (simp add: lock_post_def)

lemma locked_tick_counts:
  assumes t: "update_ess_mode e g = (Continue, g', evs)"
    and en: "output_enabled g" and l: "0 < mode_change_lock_timer g" and m: "marker_file e"
  shows "mode_change_lock_timer g' = mode_change_lock_timer g - 1 \<and> output_enabled g'"
  using tick_lock(2)[OF t] en l m by (simp add: counted_def)

lemma no_writes_while_locked:
  "output_enabled g \<Longrightarrow> int (length es) \<le> mode_change_lock_timer g \<Longrightarrow>
   \<forall>e \<in> set es. marker_file e \<Longrightarrow> run_writes es g = []"
proof (induction es arbitrary: g)
  case Nil
  then show ?case by (simp add: run_writes_Nil)
next
  case (Cons e es)
  obtain oc g' evs where t: "update_ess_mode e g = (oc, g', evs)"
    by (cases "update_ess_mode e g") auto
  from Cons.prems have l: "0 < mode_change_lock_timer g" by simp
  have w: "mode_writes evs = []" by (rule locked_tick_no_write[OF t Cons.prems(1) l])
  show ?case
  proof (cases oc)
    case Continue
    with t Cons.prems l
    have "mode_change_lock_timer g' = mode_change_lock_timer g - 1 \<and> output_enabled g'"
      by (intro locked_tick_counts[of e g g' evs]) simp_all
    with Cons.prems have "run_writes es g' = []" by (intro Cons.IH) simp_all
    with t w Continue show ?thesis by (simp add: run_writes_Cons)
  next
    case Exit
    with t w show ?thesis by (simp add: run_writes_Cons)
  qed
qed

lemma tick_written:
  assumes t: "update_ess_mode e g = (oc, g', evs)" and w: "mode_writes evs \<noteq> []"
  shows "length (mode_writes evs) = 1" "mode_change_lock_timer g' = LOCK_TIME"
    "output_enabled g'" "mode_change_lock_timer g \<le> 0 \<or> \<not> output_enabled g"
  using tick_lock(1)[OF t] w by (cases "mode_writes evs"; simp add: lock_post_def)+

lemma tick_writes_le_1:
  "update_ess_mode e g = (oc, g', evs) \<Longrightarrow> length (mode_writes evs) \<le> 1"
  using tick_lock(1) by (simp add: lock_post_def)

lemma window_at_most_one:
  "\<forall>e \<in> set es. marker_file e \<Longrightarrow> int (length es) \<le> LOCK_TIME \<Longrightarrow>
   length (run_writes es g) \<le> 1"
proof (induction es arbitrary: g)
  case Nil
  then show ?case by (simp add: run_writes_Nil)
next
  case (Cons e es)
  obtain oc g' evs where t: "update_ess_mode e g = (oc, g', evs)"
    by (cases "update_ess_mode e g") auto
  show ?case
  proof (cases "mode_writes evs = []")
    case True
    with t Cons.IH[of g'] Cons.prems show ?thesis
      by (cases oc) (simp_all add: run_writes_Cons)
  next
    case False
    note w = tick_written[OF t False]
    have "run_writes es g' = []"
      using w Cons.prems by (intro no_writes_while_locked) simp_all
    with t w show ?thesis by (cases oc) (simp_all add: run_writes_Cons)
  qed
qed

lemma window_writes_run:
  "window_writes i n es g = [] \<or> (\<exists>g'. window_writes i n es g = run_writes (take n (drop i es)) g')"
proof -
  from run_drop[of i es g] show ?thesis
  proof
    assume "drop i (run es g) = []"
    then show ?thesis by (simp add: window_writes_def)
  next
    assume "\<exists>g'. drop i (run es g) = run (drop i es) g'"
    then obtain g' where "drop i (run es g) = run (drop i es) g'" ..
    then have "window_writes i n es g = run_writes (take n (drop i es)) g'"
      by (simp add: window_writes_def run_writes_def run_take)
    then show ?thesis by blast
  qed
qed

text \<open>
  Claim C1. While the marker file is present on every tick, any window of at most
  \<open>LOCK_TIME\<close> consecutive ticks (the \<open>n\<close> ticks from tick \<open>i\<close> on, of an execution
  from any globals \<open>g\<close>) holds at most one \<^verbatim>\<open>SetValue\<close> on the Mode bus item.
  A tick that ends the process by a failing write is counted too.
\<close>

theorem mode_lock_window:
  assumes "\<forall>e \<in> set es. marker_file e" and "int n \<le> LOCK_TIME"
  shows "length (window_writes i n es g) \<le> 1"
proof -
  from window_writes_run[of i n es g] show ?thesis
  proof
    assume "window_writes i n es g = []"
    then show ?thesis by simp
  next
    assume "\<exists>g'. window_writes i n es g = run_writes (take n (drop i es)) g'"
    then obtain g' where w: "window_writes i n es g = run_writes (take n (drop i es)) g'" ..
    have "\<forall>e \<in> set (take n (drop i es)). marker_file e"
      using assms(1) by (meson in_set_dropD in_set_takeD)
    moreover have "int (length (take n (drop i es))) \<le> LOCK_TIME"
      using assms(2) by simp
    ultimately show ?thesis unfolding w by (rule window_at_most_one)
  qed
qed

text \<open>
  Claim C10. From the initial globals (\<open>output_enabled\<close> true, the lock timer at
  \<open>LOCK_TIME\<close>), no \<^verbatim>\<open>SetValue\<close> happens during the first \<open>LOCK_TIME\<close> ticks when
  the marker file is present on each of them.
\<close>

theorem no_write_after_startup:
  assumes "\<forall>e \<in> set (take (nat LOCK_TIME) es). marker_file e"
  shows "window_writes 0 (nat LOCK_TIME) es (init m) = []"
proof -
  have "run_writes (take (nat LOCK_TIME) es) (init m) = []"
    using assms by (intro no_writes_while_locked) (simp_all add: init_def LOCK_TIME_def)
  then show ?thesis by (simp add: window_writes_def run_writes_def run_take)
qed

text \<open>
  Claim C9. When one tick under the snapshot \<open>e\<close> leaves the globals \<open>g\<close> as they
  were, any number of further ticks under \<open>e\<close> writes no mode to the controller.
\<close>

theorem settled_no_writes:
  assumes "fst (snd (update_ess_mode e g)) = g"
  shows "run_writes (replicate n e) g = []"
proof -
  obtain oc evs where t: "update_ess_mode e g = (oc, g, evs)"
    using assms by (cases "update_ess_mode e g") auto
  have w: "mode_writes evs = []"
  proof (rule ccontr)
    assume "mode_writes evs \<noteq> []"
    from tick_written(2,3,4)[OF t this] show False by (simp add: LOCK_TIME_def)
  qed
  show ?thesis
    using t w by (induction n) (simp_all add: run_writes_Nil run_writes_Cons)
qed

lemma tick_eval:
  "tick_ok e g \<Longrightarrow> update_ess_mode e g = (Continue, tick_globals e g, tick_events e g)"
  by (simp add: tick_Continue)

lemma mode_writes_read_events: "mode_writes (read_events e) = []"
  by (simp add: read_events_def allow_events_def ess_events_def grid_events_def pv_events_def
      mode_writes_append split: option.splits)

lemma mode_writes_mode_events:
  "mode_writes (mode_events e g) =
     (if \<not> mode_change_lock_timer (poll_update e g) > 0 \<and>
         \<not> bus_eq (mode_current (poll_update e g)) (select_mode g) \<and>
         output_enabled (poll_update e g)
      then [select_mode g] else [])"
  by (simp add: mode_events_def poll_events_def lock_events_def commit_events_def
      mode_writes_append split: option.splits)

lemma mode_writes_tick_events: "mode_writes (tick_events e g) = tick_writes e g"
  by (simp add: tick_events_def tick_writes_def decide_events_def feed_in_events_def
      charge_events_def mode_writes_append mode_writes_read_events mode_writes_mode_events
      split: option.splits)

lemmas pure_defs = tick_ok_def tick_globals_def tick_writes_def residual_load_def grid_power_def
  ess_power_def pv_values_def pv_read_ok_def allow_flags_def allow_read_ok_def decide_sinks_def
  feed_in_sinks_def charge_sinks_def mode_ok_def poll_ok_def lock_ok_def commit_ok_def
  channels_def feed_in_update_def charge_update_def import_counters_def export_counters_def
  mode_update_def poll_update_def lock_update_def commit_update_def select_mode_def
  feed_in_request_def charge_request_def pv_active_def debounce_def timeout_def
  feed_in_stab_def charge_stab_def set_feed_in_stab_def set_charge_stab_def

lemma unlocked_on_tick:
  "update_ess_mode (sample_env 0 True) unlocked_on =
     (Continue, tick_globals (sample_env 0 True) unlocked_on,
      tick_events (sample_env 0 True) unlocked_on)"
  by (rule tick_eval) (simp add: pure_defs sample_env_def unlocked_on_def init_def params)

lemma unlocked_on_writes: "tick_writes (sample_env 0 True) unlocked_on = [4]"
  by (simp add: pure_defs sample_env_def unlocked_on_def init_def params)

theorem mode_lock_window_witness:
  "marker_file (sample_env 0 True) \<and> int 1 \<le> LOCK_TIME \<and>
   window_writes 0 1 [sample_env 0 True] unlocked_on = [4] \<and>
   length (window_writes 0 1 [sample_env 0 True] unlocked_on) \<le> 1"
proof -
  have m: "marker_file (sample_env 0 True)" by (simp add: sample_env_def)
  have w: "window_writes 0 1 [sample_env 0 True] unlocked_on = [4]"
    by (simp add: window_writes_def unlocked_on_tick mode_writes_tick_events
        unlocked_on_writes)
  from m w mode_lock_window[of "[sample_env 0 True]" 1 0 unlocked_on]
  show ?thesis by (simp add: LOCK_TIME_def)
qed

theorem no_write_after_startup_witness:
  "marker_file (sample_env 0 True) \<and>
   window_writes 0 (nat LOCK_TIME) [sample_env 0 True] (init (Int32 3)) = []"
  using no_write_after_startup[of "[sample_env 0 True]" "Int32 3"]
  by (simp add: sample_env_def LOCK_TIME_def)

lemma settled_fixed: "fst (snd (update_ess_mode (sample_env 0 True) settled)) = settled"
proof -
  have "tick_ok (sample_env 0 True) settled"
    by (simp add: pure_defs sample_env_def settled_def params)
  moreover have "tick_globals (sample_env 0 True) settled = settled"
    by (simp add: pure_defs sample_env_def settled_def params)
  ultimately show ?thesis by (simp add: tick_eval)
qed

theorem settled_no_writes_witness:
  "fst (snd (update_ess_mode (sample_env 0 True) settled)) = settled \<and>
   run_writes (replicate 5 (sample_env 0 True)) settled = []"
  using settled_no_writes[OF settled_fixed, of 5] settled_fixed by simp

lemma run_single: "run [e] g = [update_ess_mode e g]"
  by (cases "update_ess_mode e g" rule: prod_cases3; case_tac a; simp)

text \<open>
  Claim C7. The counters' bounds hold at start, every tick preserves them (whatever its
  outcome), and so they hold after every tick of every execution: each debounce counter
  is within \<open>[0, THRESHOLD_DEBOUNCE]\<close>, each timeout counter within \<open>[0, its timeout]\<close>,
  each settle counter within \<open>[0, STABLE_TIMER]\<close>.
\<close>

theorem counters_in_bounds:
  "counters_ok (init m) \<and>
   (counters_ok g \<longrightarrow> counters_ok (fst (snd (update_ess_mode e g)))) \<and>
   (\<forall>r \<in> set (run es (init m)). counters_ok (fst (snd r)))"
  using init_counters update_ess_mode_counters run_counters by blast

theorem counters_in_bounds_witness:
  "counters_ok (init (Int32 3)) \<and>
   counters_ok (fst (snd (update_ess_mode (sample_env 150 True) (init (Int32 3))))) \<and>
   counters_ok (fst (snd (hd (run [sample_env 150 True] (init (Int32 3))))))"
  using counters_in_bounds[of "Int32 3" "init (Int32 3)" "sample_env 150 True"
      "[sample_env 150 True]"]
  unfolding run_single by simp

end
